theory Spec2Isabelle
  imports Main "HOL-Library.Sublist"
begin

section \<open>The support utilities of indiekit\<close>

text \<open>
  This theory embeds \<^verbatim>\<open>getData\<close>, \<^verbatim>\<open>formatDate\<close>, \<^verbatim>\<open>render\<close> and
  \<^verbatim>\<open>renderDocument\<close> of \<^verbatim>\<open>packages/support/index.js\<close>.
  JavaScript exceptions and rejected promises are values \<open>Inl (Error message)\<close>,
  \<^verbatim>\<open>undefined\<close> is \<open>None\<close>, and every object the source mutates (the file system,
  the caller's context) is passed in and returned.  The \<^verbatim>\<open>debug(...)\<close> calls only
  log and are left out.
\<close>

section \<open>Resolving content through the cache\<close>

subsection \<open>Errors and the Node.js file system\<close>

text \<open>Every \<^verbatim>\<open>throw new Error(error.message)\<close> of the source is an \<open>Error\<close> with
  that message.\<close>

datatype js_error = Error string

text \<open>
  A path is the list of its segments below the root, already normalised; a path that ends
  with a slash has the empty segment as its last one.
  \<^verbatim>\<open>path.join\<close> joins its arguments that are not empty with a slash and normalises
  the result: empty and \<^verbatim>\<open>.\<close> segments disappear, \<^verbatim>\<open>..\<close> removes the segment
  before it, and a trailing slash is kept.  \<^verbatim>\<open>path.dirname\<close> ignores a trailing slash.
  The temporary directory of the application is absolute, so paths are read from the root.
\<close>

type_synonym path = "string list"

fun splitOn :: "char \<Rightarrow> string \<Rightarrow> string list" where
  "splitOn d [] = [[]]"
| "splitOn d (c # cs) =
     (if c = d then [] # splitOn d cs
      else (case splitOn d cs of [] \<Rightarrow> [[c]] | w # ws \<Rightarrow> (c # w) # ws))"

fun normalize_segments :: "path \<Rightarrow> string list \<Rightarrow> path" where
  "normalize_segments acc [] = acc"
| "normalize_segments acc (s # ss) =
     (if s = [] \<or> s = ''.'' then normalize_segments acc ss
      else if s = ''..'' then normalize_segments (butlast acc) ss
      else normalize_segments (acc @ [s]) ss)"

definition path_normalize :: "string \<Rightarrow> path" where
  "path_normalize a =
     (let segs = normalize_segments [] (splitOn CHR ''/'' a)
      in if a \<noteq> [] \<and> last a = CHR ''/'' \<and> segs \<noteq> [] then segs @ [[]] else segs)"

definition path_join :: "string \<Rightarrow> string \<Rightarrow> path" where
  "path_join a b = path_normalize (if b = [] then a else if a = [] then b else a @ ''/'' @ b)"

definition trailing_slash :: "path \<Rightarrow> bool" where
  "trailing_slash p = (p \<noteq> [] \<and> last p = [])"

definition path_base :: "path \<Rightarrow> path" where
  "path_base p = (if trailing_slash p then butlast p else p)"

definition path_dirname :: "path \<Rightarrow> path" where
  "path_dirname p = butlast (path_base p)"

text \<open>
  The file system maps a path to a regular file with its content or to a directory; the
  root is always a directory, and a path with a trailing slash resolves only to a
  directory.  Only the failures that follow from the shape of the tree are modelled (a
  missing entry, a directory where a file is expected and the reverse), each with the code
  Node.js reports.
\<close>

datatype node = File string | Dir

type_synonym filesystem = "path \<rightharpoonup> node"

definition node_at :: "filesystem \<Rightarrow> path \<Rightarrow> node option" where
  "node_at fs p =
     (if path_base p = [] then Some Dir
      else if trailing_slash p then
        (case fs (path_base p) of Some Dir \<Rightarrow> Some Dir | _ \<Rightarrow> None)
      else fs p)"

definition is_file :: "filesystem \<Rightarrow> path \<Rightarrow> bool" where
  "is_file fs p = (case node_at fs p of Some (File c) \<Rightarrow> True | _ \<Rightarrow> False)"

definition is_dir :: "filesystem \<Rightarrow> path \<Rightarrow> bool" where
  "is_dir fs p = (node_at fs p = Some Dir)"

text \<open>\<^verbatim>\<open>fsp.readFile(path, {encoding: 'utf-8'})\<close>: the content, or a rejection.\<close>

definition fsp_readFile :: "filesystem \<Rightarrow> path \<Rightarrow> string + string" where
  "fsp_readFile fs p =
     (case node_at fs p of
        Some (File c) \<Rightarrow> Inr c
      | Some Dir \<Rightarrow> Inl ''EISDIR''
      | None \<Rightarrow>
          if list_ex (is_file fs) (prefixes (butlast p)) then Inl ''ENOTDIR''
          else Inl ''ENOENT'')"

text \<open>\<^verbatim>\<open>fsp.mkdir(dir, {recursive: true})\<close>: every missing ancestor and the directory
  itself are created; an existing directory is no error; a regular file in the way is.\<close>

definition fsp_mkdir_recursive :: "filesystem \<Rightarrow> path \<Rightarrow> string + filesystem" where
  "fsp_mkdir_recursive fs d =
     (if is_file fs (path_base d) then Inl ''EEXIST''
      else if list_ex (is_file fs) (prefixes (path_base d)) then Inl ''ENOTDIR''
      else Inr (foldl (\<lambda>m q. m(q \<mapsto> Dir)) fs (prefixes (path_base d))))"

text \<open>\<^verbatim>\<open>fsp.writeFile(path, data)\<close>: creates or replaces the file; its promise
  resolves with no value.  A path with a trailing slash cannot be opened for writing.\<close>

definition fsp_writeFile :: "filesystem \<Rightarrow> path \<Rightarrow> string \<Rightarrow> string + filesystem" where
  "fsp_writeFile fs p data =
     (if is_dir fs p then Inl ''EISDIR''
      else if is_file fs (path_dirname p) then Inl ''ENOTDIR''
      else if \<not> is_dir fs (path_dirname p) then Inl ''ENOENT''
      else if trailing_slash p then
        (if is_file fs (path_base p) then Inl ''ENOTDIR'' else Inl ''EISDIR'')
      else Inr (fs(p \<mapsto> File data)))"

subsection \<open>getData\<close>

text \<open>
  The publisher is the capability \<^verbatim>\<open>publisher.readFile(basepath)\<close>: it resolves
  with the content, a string (\<open>Inr\<close>), or rejects with an error whose message is kept
  (\<open>Inl\<close>).  The world holds the file system and the log of the calls made to the
  publisher; one call of \<^verbatim>\<open>getData\<close> runs without interference from another.
\<close>

type_synonym publisher = "string \<Rightarrow> string + string"

record world =
  files :: filesystem
  pub_calls :: "string list"

text \<open>
  \<^verbatim>\<open>
  async getData(basepath, tmpdir, publisher) {
    let data;
    const filePath = path.join(tmpdir, basepath);
    const fileData = await fsp.readFile(filePath, {encoding: 'utf-8'}).catch(error => {...});
    if (fileData) {
      data = fileData;
    } else {
      const pubData = await publisher.readFile(basepath).catch(error => {
        throw new Error(error.message);
      });
      if (pubData) {
        await fsp.mkdir(path.dirname(filePath), {recursive: true}).catch(error => {
          throw new Error(error.message);
        });
        data = await fsp.writeFile(filePath, pubData).catch(error => {
          throw new Error(error.message);
        });
      }
    }
    return data;
  }
  \<close>
  A string is truthy when it is not empty; the handler of the local read returns nothing,
  so a failed read leaves \<^verbatim>\<open>fileData\<close> undefined.  \<^verbatim>\<open>data\<close> receives what
  \<^verbatim>\<open>fsp.writeFile\<close> resolves with, which is \<^verbatim>\<open>undefined\<close>.
\<close>

definition truthy :: "string option \<Rightarrow> bool" where
  "truthy v = (case v of None \<Rightarrow> False | Some s \<Rightarrow> s \<noteq> [])"

definition getData ::
  "string \<Rightarrow> string \<Rightarrow> publisher \<Rightarrow> world \<Rightarrow> (js_error + string option) \<times> world" where
  "getData basepath tmpdir publisher w =
     (let filePath = path_join tmpdir basepath;
          fileData = (case fsp_readFile (files w) filePath of Inl err \<Rightarrow> None | Inr c \<Rightarrow> Some c)
      in if truthy fileData then (Inr fileData, w)
         else
           (let w1 = w\<lparr>pub_calls := pub_calls w @ [basepath]\<rparr> in
            case publisher basepath of
              Inl msg \<Rightarrow> (Inl (Error msg), w1)
            | Inr pubData \<Rightarrow>
                if truthy (Some pubData) then
                  (case fsp_mkdir_recursive (files w1) (path_dirname filePath) of
                     Inl msg \<Rightarrow> (Inl (Error msg), w1)
                   | Inr fs2 \<Rightarrow>
                       (case fsp_writeFile fs2 filePath pubData of
                          Inl msg \<Rightarrow> (Inl (Error msg), w1\<lparr>files := fs2\<rparr>)
                        | Inr fs3 \<Rightarrow> (Inr None, w1\<lparr>files := fs3\<rparr>)))
                else (Inr None, w1)))"

section \<open>Rendering documents\<close>

subsection \<open>JavaScript values\<close>

text \<open>
  The values that YAML front matter and a template context hold.  \<^verbatim>\<open>undefined\<close> is
  not a value of this type: a property that is absent is \<open>None\<close>.  A string holds
  the code units of the JavaScript string, which are taken below 256.
\<close>

datatype jsval =
  Null | Bool bool | Num int | Str string | Arr "jsval list" | Obj "(string \<times> jsval) list"

type_synonym "context" = "string \<rightharpoonup> jsval"

definition falsy :: "jsval \<Rightarrow> bool" where
  "falsy v = (v = Null \<or> v = Bool False \<or> v = Num 0 \<or> v = Str [])"

text \<open>\<^verbatim>\<open>value.key\<close> for the only key the source reads by name, on a value that came
  from YAML: a mapping has its entries, every other value has no such property.\<close>

fun property :: "jsval \<Rightarrow> string \<Rightarrow> jsval option" where
  "property (Obj kvs) k = map_of kvs k"
| "property v k = None"

subsection \<open>The libraries\<close>

text \<open>
  The source delegates to four packages.  What they compute on well-formed input (loading
  YAML, evaluating a template, parsing and formatting a date) is a parameter of the model,
  collected in the record \<open>libs\<close>; the control flow around it, which decides what the
  functions of the source do on input that is missing or malformed, is written out.
  \<^item> \<open>yaml_load\<close> is \<^verbatim>\<open>load\<close> of js-yaml: the value of a YAML text, or an exception.
  \<^item> \<open>nj_render\<close> is what a Nunjucks environment, with the filter \<^verbatim>\<open>date\<close>
    registered, renders for a template source that is defined and a context; it does not
    change the context.
  \<^item> \<open>lx_local\<close> is the reading of the clock by \<^verbatim>\<open>DateTime.local()\<close>, a valid
    date-time identified by its instant; \<open>lx_fromISO\<close> is the parser behind
    \<^verbatim>\<open>DateTime.fromISO(text, {locale, zone: 'utc'})\<close>, with \<open>None\<close> for a text it
    does not accept; \<open>lx_toFormat\<close> formats a valid date-time under a locale with a
    token pattern, or throws (a \<^verbatim>\<open>RangeError\<close> for a locale that is not one).
\<close>

type_synonym instant = int

datatype iso_arg = DateTimeObj instant | JSVal jsval

type_synonym date_filter = "jsval \<Rightarrow> string \<Rightarrow> string option \<Rightarrow> js_error + string"

record libs =
  yaml_load :: "string \<Rightarrow> js_error + jsval"
  nj_render :: "date_filter \<Rightarrow> jsval \<Rightarrow> context \<Rightarrow> js_error + string"
  lx_local :: instant
  lx_fromISO :: "iso_arg \<Rightarrow> string \<Rightarrow> instant option"
  lx_toFormat :: "instant \<Rightarrow> string \<Rightarrow> string \<Rightarrow> js_error + string"

subsection \<open>formatDate\<close>

text \<open>
  \<^verbatim>\<open>
  formatDate(str, format, locale = 'en-GB') {
    const date = (str === 'now') ? DateTime.local() : str;
    const datetime = DateTime.fromISO(date, {locale, zone: 'utc'}).toFormat(format);
    return datetime;
  }
  \<close>
  Luxon does not throw on a text it cannot parse: \<^verbatim>\<open>DateTime.fromISO\<close> returns an
  invalid \<^verbatim>\<open>DateTime\<close>, and \<^verbatim>\<open>toFormat\<close> of an invalid \<^verbatim>\<open>DateTime\<close> is
  the string \<^verbatim>\<open>Invalid DateTime\<close>.  Formatting a valid \<^verbatim>\<open>DateTime\<close> can
  throw, and \<^verbatim>\<open>formatDate\<close> lets that exception pass.  For \<^verbatim>\<open>now\<close> the source
  hands the \<^verbatim>\<open>DateTime\<close> object itself to \<^verbatim>\<open>fromISO\<close>.
\<close>

definition DateTime_fromISO :: "libs \<Rightarrow> iso_arg \<Rightarrow> string \<Rightarrow> instant option" where
  "DateTime_fromISO L date locale = lx_fromISO L date locale"

definition toFormat :: "libs \<Rightarrow> instant option \<Rightarrow> string \<Rightarrow> string \<Rightarrow> js_error + string" where
  "toFormat L dt locale format =
     (case dt of
        None \<Rightarrow> Inr ''Invalid DateTime''
      | Some t \<Rightarrow> lx_toFormat L t locale format)"

definition formatDate :: "libs \<Rightarrow> jsval \<Rightarrow> string \<Rightarrow> string option \<Rightarrow> js_error + string" where
  "formatDate L str format locale_arg =
     (let locale = (case locale_arg of None \<Rightarrow> ''en-GB'' | Some l \<Rightarrow> l);
          date = (if str = Str ''now'' then DateTimeObj (lx_local L) else JSVal str)
      in case toFormat L (DateTime_fromISO L date locale) locale format of
           Inl e \<Rightarrow> Inl e
         | Inr datetime \<Rightarrow> Inr datetime)"

subsection \<open>render\<close>

text \<open>
  \<^verbatim>\<open>
  render(string, context) {
    const env = new nunjucks.Environment();
    env.addFilter('date', this.formatDate);
    return env.renderString(string, context);
  }
  \<close>
  \<^verbatim>\<open>renderString\<close> builds a \<^verbatim>\<open>Template\<close> from the source, and the constructor
  throws when the source is neither a string nor an object; that is the case of
  \<^verbatim>\<open>undefined\<close>.
\<close>

definition renderString :: "libs \<Rightarrow> date_filter \<Rightarrow> jsval option \<Rightarrow> context \<Rightarrow> js_error + string" where
  "renderString L date src ctx =
     (case src of
        None \<Rightarrow> Inl (Error ''src must be a string or an object describing the source'')
      | Some s \<Rightarrow> nj_render L date s ctx)"

definition render :: "libs \<Rightarrow> jsval option \<Rightarrow> context \<Rightarrow> js_error + string" where
  "render L string context = renderString L (formatDate L) string context"

subsection \<open>The front-matter package\<close>

text \<open>
  \<^verbatim>\<open>
  var pattern = '^(' + '\\ufeff?' + '(= yaml =|---)' + '$([\\s\\S]*?)' +
    '^(?:\\2|\\.\\.\\.)\\s*' + '$' + '(?:\\n)?)'
  var regex = new RegExp(pattern, 'm')

  function extractor (string) {
    string = string || ''
    var lines = string.split(/(\r?\n)/)
    if (lines[0] && /= yaml =|---/.test(lines[0])) {
      return parse(string)
    } else {
      return { attributes: {}, body: string }
    }
  }

  function parse (string) {
    var match = regex.exec(string)
    if (!match) {
      return { attributes: {}, body: string }
    }
    var yaml = match[match.length - 1].replace(/^\s+|\s+$/g, '')
    var attributes = parser.load(yaml) || {}
    var body = string.replace(match[0], '')
    return { attributes: attributes, body: body, frontmatter: yaml }
  }
  \<close>
  The regular expression is written out as the functions below.  With the flag
  \<^verbatim>\<open>m\<close>, \<^verbatim>\<open>^\<close> matches after a line terminator and \<^verbatim>\<open>$\<close> before one.
  The byte order mark and the line separators above 255 do not occur in the strings of the
  model.  \<^verbatim>\<open>lines[0]\<close> is the text before the first line feed, less a carriage
  return in front of it, which the test for a marker does not see.  The fields
  \<^verbatim>\<open>bodyBegin\<close> and \<^verbatim>\<open>frontmatter\<close> of the result are not read by the source
  and are left out.
\<close>

definition is_line_terminator :: "char \<Rightarrow> bool" where
  "is_line_terminator c = (c = CHR 0x0A \<or> c = CHR 0x0D)"

definition is_space_char :: "char \<Rightarrow> bool" where
  "is_space_char c =
     (c = CHR 0x09 \<or> c = CHR 0x0A \<or> c = CHR 0x0B \<or> c = CHR 0x0C \<or> c = CHR 0x0D
      \<or> c = CHR 0x20 \<or> c = CHR 0xA0)"

text \<open>\<^verbatim>\<open>String.prototype.includes\<close>.\<close>

fun string_includes :: "string \<Rightarrow> string \<Rightarrow> bool" where
  "string_includes [] p = (p = [])"
| "string_includes (c # s) p = (prefix p (c # s) \<or> string_includes s p)"

text \<open>\<^verbatim>\<open>$\<close>: the end of the text or the position before a line terminator.\<close>

definition at_line_end :: "string \<Rightarrow> bool" where
  "at_line_end t = (case t of [] \<Rightarrow> True | c # r \<Rightarrow> is_line_terminator c)"

text \<open>\<^verbatim>\<open>(= yaml =|---)$\<close> at a line start: the marker and the text after it.\<close>

definition opener_at :: "string \<Rightarrow> (string \<times> string) option" where
  "opener_at u =
     (if prefix ''= yaml ='' u \<and> at_line_end (drop 8 u) then Some (''= yaml ='', drop 8 u)
      else if prefix ''---'' u \<and> at_line_end (drop 3 u) then Some (''---'', drop 3 u)
      else None)"

text \<open>
  \<^verbatim>\<open>\s*$(?:\n)?\<close>: the text left after the match.  The greedy \<^verbatim>\<open>\s*\<close> takes the
  whole run of white space; if text follows the run, it gives characters back up to the
  last line terminator of the run, which \<^verbatim>\<open>(?:\n)?\<close> consumes when it is a line feed.
\<close>

definition after_closing :: "string \<Rightarrow> string option" where
  "after_closing t =
     (let run = takeWhile is_space_char t;
          rest = dropWhile is_space_char t;
          kept = rev (takeWhile (\<lambda>c. \<not> is_line_terminator c) (rev run));
          upto = rev (dropWhile (\<lambda>c. \<not> is_line_terminator c) (rev run))
      in if rest = [] then Some []
         else if upto = [] then None
         else if last upto = CHR 0x0A then Some (kept @ rest)
         else Some (last upto # kept @ rest))"

text \<open>\<^verbatim>\<open>(?:\2|\.\.\.)\s*$(?:\n)?\<close> at a line start, for the marker \<open>m\<close> that
  opened the block.\<close>

definition closer_at :: "string \<Rightarrow> string \<Rightarrow> string option" where
  "closer_at m u =
     (if prefix m u then after_closing (drop (length m) u)
      else if prefix ''...'' u then after_closing (drop 3 u)
      else None)"

text \<open>\<^verbatim>\<open>([\s\S]*?)^\<close> followed by the closing line: the lazy group grows one
  character at a time and stops at the first line start where the closing line matches.
  The result is the text of the group and the text left after the match.\<close>

fun find_closer :: "string \<Rightarrow> string \<Rightarrow> string \<Rightarrow> (string \<times> string) option" where
  "find_closer m acc [] = None"
| "find_closer m acc (c # t) =
     (if is_line_terminator c then
        (case closer_at m t of
           Some r \<Rightarrow> Some (acc @ [c], r)
         | None \<Rightarrow> find_closer m (acc @ [c]) t)
      else find_closer m (acc @ [c]) t)"

text \<open>The whole pattern at one line start: the matched text and the text of the last
  group.\<close>

definition match_here :: "string \<Rightarrow> (string \<times> string) option" where
  "match_here u =
     (case opener_at u of
        None \<Rightarrow> None
      | Some (m, t) \<Rightarrow>
          (case find_closer m [] t of
             None \<Rightarrow> None
           | Some (y, r) \<Rightarrow> Some (take (length u - length r) u, y)))"

text \<open>\<^verbatim>\<open>regex.exec(string)\<close>: the leftmost line start where the pattern matches.\<close>

fun regex_exec_from :: "bool \<Rightarrow> string \<Rightarrow> (string \<times> string) option" where
  "regex_exec_from b [] = None"
| "regex_exec_from b (c # u) =
     (case (if b then match_here (c # u) else None) of
        Some r \<Rightarrow> Some r
      | None \<Rightarrow> regex_exec_from (is_line_terminator c) u)"

definition regex_exec :: "string \<Rightarrow> (string \<times> string) option" where
  "regex_exec string = regex_exec_from True string"

text \<open>\<^verbatim>\<open>replace(/^\s+|\s+$/g, '')\<close> and \<^verbatim>\<open>string.replace(match[0], '')\<close>, which
  removes the first occurrence of a text that is not empty.\<close>

definition trim :: "string \<Rightarrow> string" where
  "trim s = rev (dropWhile is_space_char (rev (dropWhile is_space_char s)))"

fun remove_first :: "string \<Rightarrow> string \<Rightarrow> string" where
  "remove_first pat [] = []"
| "remove_first pat (c # s) =
     (if prefix pat (c # s) then drop (length pat) (c # s) else c # remove_first pat s)"

record fm_document =
  attributes :: jsval
  fm_body :: string

definition parse :: "(string \<Rightarrow> js_error + jsval) \<Rightarrow> string \<Rightarrow> js_error + fm_document" where
  "parse load string =
     (case regex_exec string of
        None \<Rightarrow> Inr \<lparr>attributes = Obj [], fm_body = string\<rparr>
      | Some (match0, yaml) \<Rightarrow>
          (case load (trim yaml) of
             Inl e \<Rightarrow> Inl e
           | Inr v \<Rightarrow>
               Inr \<lparr>attributes = (if falsy v then Obj [] else v),
                    fm_body = remove_first match0 string\<rparr>))"

definition frontmatter :: "(string \<Rightarrow> js_error + jsval) \<Rightarrow> string \<Rightarrow> js_error + fm_document" where
  "frontmatter load string =
     (let line0 = takeWhile (\<lambda>c. c \<noteq> CHR 0x0A) string
      in if string_includes line0 ''= yaml ='' \<or> string_includes line0 ''---'' then parse load string
         else Inr \<lparr>attributes = Obj [], fm_body = string\<rparr>)"

subsection \<open>renderDocument\<close>

text \<open>
  \<^verbatim>\<open>
  renderDocument(file, context) {
    let string = fs.readFileSync(file);
    string = Buffer.from(string).toString('utf8');
    const document = frontmatter(string);
    context.page = document.attributes;
    return {
      body: utils.render(document.body, context),
      page: document.attributes,
      title: utils.render(document.attributes.title, context)
    };
  }
  \<close>
  The context is the caller's object: the assignment to \<^verbatim>\<open>context.page\<close> is
  returned with the result, also when a later step throws.
\<close>

definition fs_readFileSync :: "filesystem \<Rightarrow> string \<Rightarrow> string + string" where
  "fs_readFileSync fs file = fsp_readFile fs (path_normalize file)"

record document =
  body :: string
  page :: jsval
  title :: string

definition renderDocument ::
  "libs \<Rightarrow> filesystem \<Rightarrow> string \<Rightarrow> context \<Rightarrow> (js_error + document) \<times> context" where
  "renderDocument L fs file context =
     (case fs_readFileSync fs file of
        Inl msg \<Rightarrow> (Inl (Error msg), context)
      | Inr string \<Rightarrow>
          (case frontmatter (yaml_load L) string of
             Inl e \<Rightarrow> (Inl e, context)
           | Inr doc \<Rightarrow>
               (let context' = context(''page'' \<mapsto> attributes doc) in
                case render L (Some (Str (fm_body doc))) context' of
                  Inl e \<Rightarrow> (Inl e, context')
                | Inr b \<Rightarrow>
                    (case render L (property (attributes doc) ''title'') context' of
                       Inl e \<Rightarrow> (Inl e, context')
                     | Inr t \<Rightarrow>
                         (Inr \<lparr>body = b, page = attributes doc, title = t\<rparr>, context')))))"

text \<open>Some line after the first closes a block: it follows a line terminator and the
  closing part of the pattern matches there for one of the two markers.\<close>

definition closes_block :: "string \<Rightarrow> bool" where
  "closes_block u =
     (case closer_at ''---'' u of
        Some r \<Rightarrow> True
      | None \<Rightarrow> (case closer_at ''= yaml ='' u of Some r \<Rightarrow> True | None \<Rightarrow> False))"

fun closing_line_after :: "string \<Rightarrow> bool" where
  "closing_line_after [] = False"
| "closing_line_after (c # u) =
     (if is_line_terminator c \<and> closes_block u then True else closing_line_after u)"

subsection \<open>A small instance of the libraries\<close>

text \<open>
  For evaluating the functions on concrete documents: a YAML loader for flat mappings of
  the form \<^verbatim>\<open>key: value\<close>, a template renderer for texts with \<^verbatim>\<open>{{ a.b }}\<close>
  lookups, where an undefined variable prints nothing, and a clock fixed at
  2020-01-01T00:00:00Z with a parser that accepts this timestamp only.
\<close>

fun split_key_value :: "string \<Rightarrow> string \<Rightarrow> (string \<times> jsval) option" where
  "split_key_value k [] = None"
| "split_key_value k (c # r) =
     (if c = CHR '':'' then Some (k, Str (trim r)) else split_key_value (k @ [c]) r)"

definition demo_yaml_load :: "string \<Rightarrow> js_error + jsval" where
  "demo_yaml_load y =
     (if y = [] then Inr Null
      else (case those (map (split_key_value []) (splitOn CHR 0x0A y)) of
              None \<Rightarrow> Inl (Error ''YAMLException'')
            | Some kvs \<Rightarrow> Inr (Obj kvs)))"

fun lookup_path :: "jsval option \<Rightarrow> string list \<Rightarrow> jsval option" where
  "lookup_path v [] = v"
| "lookup_path None (k # ks) = None"
| "lookup_path (Some v) (k # ks) = lookup_path (property v k) ks"

definition demo_lookup :: "context \<Rightarrow> string \<Rightarrow> string" where
  "demo_lookup ctx expr =
     (case splitOn CHR ''.'' (trim expr) of
        [] \<Rightarrow> []
      | k # ks \<Rightarrow> (case lookup_path (ctx k) ks of Some (Str s) \<Rightarrow> s | _ \<Rightarrow> []))"

fun demo_template :: "context \<Rightarrow> string option \<Rightarrow> string \<Rightarrow> js_error + string" where
  "demo_template ctx None [] = Inr []"
| "demo_template ctx (Some e) [] = Inl (Error ''expected variable end'')"
| "demo_template ctx None [c] = Inr [c]"
| "demo_template ctx (Some e) [c] = Inl (Error ''expected variable end'')"
| "demo_template ctx None (c # d # r) =
     (if c = CHR ''{'' \<and> d = CHR ''{'' then demo_template ctx (Some []) r
      else map_sum id ((#) c) (demo_template ctx None (d # r)))"
| "demo_template ctx (Some e) (c # d # r) =
     (if c = CHR ''}'' \<and> d = CHR ''}''
      then map_sum id ((@) (demo_lookup ctx e)) (demo_template ctx None r)
      else demo_template ctx (Some (e @ [c])) (d # r))"

definition demo_nj_render :: "date_filter \<Rightarrow> jsval \<Rightarrow> context \<Rightarrow> js_error + string" where
  "demo_nj_render date src ctx =
     (case src of
        Str s \<Rightarrow> demo_template ctx None s
      | _ \<Rightarrow> Inl (Error ''src must be a string or an object describing the source''))"

definition demo_fromISO :: "iso_arg \<Rightarrow> string \<Rightarrow> instant option" where
  "demo_fromISO a locale =
     (case a of
        DateTimeObj t \<Rightarrow> Some t
      | JSVal v \<Rightarrow> if v = Str ''2020-01-01T00:00:00Z'' then Some 1577836800000 else None)"

definition demo_toFormat :: "instant \<Rightarrow> string \<Rightarrow> string \<Rightarrow> js_error + string" where
  "demo_toFormat t locale format =
     (if locale = [] then Inl (Error ''Incorrect locale information provided'')
      else if t = 1577836800000 \<and> format = ''dd/MM/yyyy'' then Inr ''01/01/2020''
      else Inr format)"

definition demo_libs :: libs where
  "demo_libs = \<lparr>yaml_load = demo_yaml_load, nj_render = demo_nj_render,
                 lx_local = 1577836800000, lx_fromISO = demo_fromISO,
                 lx_toFormat = demo_toFormat\<rparr>"

section \<open>Properties of getData\<close>

subsection \<open>Facts about paths and the file system\<close>

lemma normalize_segments_nonempty:
  assumes "[] \<notin> set acc"
  shows "[] \<notin> set (normalize_segments acc ss)"
  using assms
proof (induction ss arbitrary: acc)
  case Nil
  then show ?case by simp
next
  case (Cons s ss)
  have b: "[] \<notin> set (butlast acc)" using Cons.prems by (auto dest: in_set_butlastD)
  show ?case
  proof (cases "s = [] \<or> s = ''.''")
    case True
    with Cons.IH [OF Cons.prems] show ?thesis by simp
  next
    case False
    show ?thesis
    proof (cases "s = ''..''")
      case True
      with Cons.IH [OF b] show ?thesis by simp
    next
      case ndots: False
      from False Cons.prems have "[] \<notin> set (acc @ [s])" by auto
      from Cons.IH [OF this] False ndots show ?thesis by simp
    qed
  qed
qed

lemma not_trailing_slash: "[] \<notin> set p \<Longrightarrow> \<not> trailing_slash p"
proof
  assume a: "[] \<notin> set p" and t: "trailing_slash p"
  from t have "p \<noteq> []" and "last p = []" by (simp_all add: trailing_slash_def)
  then have "[] \<in> set p" by (metis last_in_set)
  with a show False by simp
qed

lemma path_dirname_normalize: "[] \<notin> set (path_dirname (path_normalize a))"
proof -
  let ?segs = "normalize_segments [] (splitOn CHR ''/'' a)"
  have segs: "[] \<notin> set ?segs" by (rule normalize_segments_nonempty) simp
  have "path_dirname (path_normalize a) = butlast ?segs"
  proof (cases "a \<noteq> [] \<and> last a = CHR ''/'' \<and> ?segs \<noteq> []")
    case True
    then show ?thesis
      by (simp add: path_normalize_def path_dirname_def path_base_def trailing_slash_def Let_def)
  next
    case False
    have "\<not> trailing_slash ?segs"
      using segs by (rule not_trailing_slash)
    with False show ?thesis
      by (auto simp: path_normalize_def path_dirname_def path_base_def Let_def)
  qed
  with segs show ?thesis by (auto dest: in_set_butlastD)
qed

lemma path_base_plain: "[] \<notin> set p \<Longrightarrow> path_base p = p"
  by (simp add: path_base_def not_trailing_slash)

lemma path_base_dirname_join:
  "path_base (path_dirname (path_join a b)) = path_dirname (path_join a b)"
  unfolding path_join_def by (rule path_base_plain) (rule path_dirname_normalize)

lemma node_at_File:
  assumes "node_at fs p = Some (File c)"
  shows "p \<noteq> [] \<and> \<not> trailing_slash p \<and> fs p = Some (File c)"
  using assms
  by (auto simp: node_at_def path_base_def split: if_splits option.splits node.splits)

lemma node_at_plain: "p \<noteq> [] \<Longrightarrow> \<not> trailing_slash p \<Longrightarrow> node_at fs p = fs p"
  by (simp add: node_at_def path_base_def)

lemma is_file_iff:
  "is_file fs p \<longleftrightarrow> p \<noteq> [] \<and> \<not> trailing_slash p \<and> (\<exists>c. fs p = Some (File c))"
  by (auto simp: is_file_def node_at_def path_base_def split: option.splits node.splits)

lemma readFile_Inr: "fsp_readFile fs p = Inr c \<longleftrightarrow> node_at fs p = Some (File c)"
  by (auto simp: fsp_readFile_def split: option.splits node.splits)

lemma foldl_mkdir_lookup:
  "foldl (\<lambda>m q. m(q \<mapsto> Dir)) fs qs p = (if p \<in> set qs then Some Dir else fs p)"
  by (induction qs arbitrary: fs) auto

lemma mkdir_recursive_lookup:
  assumes "fsp_mkdir_recursive fs d = Inr fs'"
  shows "fs' p = (if prefix p (path_base d) then Some Dir else fs p)"
proof -
  from assms have "fs' = foldl (\<lambda>m q. m(q \<mapsto> Dir)) fs (prefixes (path_base d))"
    by (simp add: fsp_mkdir_recursive_def split: if_splits)
  then show ?thesis by (simp add: foldl_mkdir_lookup)
qed

lemma mkdir_recursive_succeeds:
  assumes "\<not> list_ex (is_file fs) (prefixes (path_base d))"
  shows "fsp_mkdir_recursive fs d = Inr (foldl (\<lambda>m q. m(q \<mapsto> Dir)) fs (prefixes (path_base d)))"
proof -
  from assms have "\<not> is_file fs (path_base d)" by (auto simp: list_ex_iff)
  with assms show ?thesis by (simp add: fsp_mkdir_recursive_def)
qed

lemma not_prefix_dirname:
  assumes "p \<noteq> []" and "\<not> trailing_slash p"
  shows "\<not> prefix p (path_base (path_dirname p))"
proof
  assume pre: "prefix p (path_base (path_dirname p))"
  have "length (path_base (path_dirname p)) \<le> length (butlast p)"
    using assms(2) by (auto simp: path_base_def path_dirname_def)
  moreover from pre have "length p \<le> length (path_base (path_dirname p))"
    by (rule prefix_length_le)
  ultimately show False using assms(1) by (cases p rule: rev_cases) simp_all
qed

lemma writeFile_then_read:
  assumes "fsp_writeFile fs p d = Inr fs'"
  shows "fsp_readFile fs' p = Inr d"
proof -
  from assms have nd: "\<not> is_dir fs p" and nt: "\<not> trailing_slash p" and fs': "fs' = fs(p \<mapsto> File d)"
    by (auto simp: fsp_writeFile_def split: if_splits)
  from nd have "p \<noteq> []" by (auto simp: is_dir_def node_at_def path_base_def)
  with nt fs' show ?thesis by (simp add: readFile_Inr node_at_plain)
qed

lemma writeFile_after_mkdir:
  assumes mk: "fsp_mkdir_recursive fs (path_dirname p) = Inr fs2"
    and entry: "node_at fs p = Some (File c)"
  shows "fsp_writeFile fs2 p d = Inr (fs2(p \<mapsto> File d))"
proof -
  from node_at_File [OF entry] have ne: "p \<noteq> []" and nt: "\<not> trailing_slash p"
    and fp: "fs p = Some (File c)" by simp_all
  from not_prefix_dirname [OF ne nt] mk have "fs2 p = fs p"
    by (simp add: mkdir_recursive_lookup)
  with fp ne nt have nd: "\<not> is_dir fs2 p" by (simp add: is_dir_def node_at_plain)
  have base: "fs2 (path_base (path_dirname p)) = Some Dir"
    using mk by (simp add: mkdir_recursive_lookup)
  have dir: "node_at fs2 (path_dirname p) = Some Dir"
    using base by (auto simp: node_at_def path_base_def)
  then have "is_dir fs2 (path_dirname p)" and "\<not> is_file fs2 (path_dirname p)"
    by (simp_all add: is_dir_def is_file_def)
  with nd nt show ?thesis by (simp add: fsp_writeFile_def)
qed

subsection \<open>The branches of getData\<close>

lemma getData_hit:
  assumes "fsp_readFile (files w) (path_join tmpdir basepath) = Inr c" and "c \<noteq> []"
  shows "getData basepath tmpdir publisher w = (Inr (Some c), w)"
  using assms by (simp add: getData_def truthy_def)

lemma getData_miss_reject:
  assumes "\<not> truthy (case fsp_readFile (files w) (path_join tmpdir basepath) of Inl err \<Rightarrow> None | Inr c \<Rightarrow> Some c)"
    and "publisher basepath = Inl msg"
  shows "getData basepath tmpdir publisher w = (Inl (Error msg), w\<lparr>pub_calls := pub_calls w @ [basepath]\<rparr>)"
  using assms by (simp add: getData_def Let_def)

lemma getData_miss_unfold:
  assumes "\<not> truthy (case fsp_readFile (files w) (path_join tmpdir basepath) of Inl err \<Rightarrow> None | Inr c \<Rightarrow> Some c)"
  shows "getData basepath tmpdir publisher w =
     (case publisher basepath of
        Inl msg \<Rightarrow> (Inl (Error msg), w\<lparr>pub_calls := pub_calls w @ [basepath]\<rparr>)
      | Inr pubData \<Rightarrow>
          if pubData \<noteq> [] then
            (case fsp_mkdir_recursive (files w) (path_dirname (path_join tmpdir basepath)) of
               Inl msg \<Rightarrow> (Inl (Error msg), w\<lparr>pub_calls := pub_calls w @ [basepath]\<rparr>)
             | Inr fs2 \<Rightarrow>
                 (case fsp_writeFile fs2 (path_join tmpdir basepath) pubData of
                    Inl msg \<Rightarrow> (Inl (Error msg), \<lparr>files = fs2, pub_calls = pub_calls w @ [basepath]\<rparr>)
                  | Inr fs3 \<Rightarrow> (Inr None, \<lparr>files = fs3, pub_calls = pub_calls w @ [basepath]\<rparr>)))
          else (Inr None, w\<lparr>pub_calls := pub_calls w @ [basepath]\<rparr>))"
  using assms by (simp add: getData_def Let_def truthy_def split: sum.splits)

lemma getData_success_cases:
  assumes "getData basepath tmpdir publisher w = (Inr r, w1)"
  shows "(\<exists>c. c \<noteq> [] \<and> r = Some c \<and> w1 = w \<and> fsp_readFile (files w) (path_join tmpdir basepath) = Inr c)
       \<or> (r = None \<and> publisher basepath = Inr [] \<and> w1 = w\<lparr>pub_calls := pub_calls w @ [basepath]\<rparr>)
       \<or> (\<exists>d. d \<noteq> [] \<and> r = None \<and> publisher basepath = Inr d
              \<and> fsp_readFile (files w1) (path_join tmpdir basepath) = Inr d
              \<and> pub_calls w1 = pub_calls w @ [basepath])"
proof (cases "truthy (case fsp_readFile (files w) (path_join tmpdir basepath) of Inl err \<Rightarrow> None | Inr c \<Rightarrow> Some c)")
  case True
  then obtain c where c: "fsp_readFile (files w) (path_join tmpdir basepath) = Inr c" "c \<noteq> []"
    by (auto simp: truthy_def split: sum.splits)
  from getData_hit [OF c] assms show ?thesis using c by simp
next
  case False
  note miss = getData_miss_unfold [OF False, where publisher = publisher]
  show ?thesis
  proof (cases "publisher basepath")
    case (Inl msg)
    with miss assms show ?thesis by simp
  next
    case (Inr d)
    show ?thesis
    proof (cases "d = []")
      case True
      with miss assms Inr show ?thesis by auto
    next
      case False
      with miss assms Inr show ?thesis
        by (auto split: sum.splits dest: writeFile_then_read)
    qed
  qed
qed

lemma getData_fetch_persists:
  assumes "fsp_readFile (files w) (path_join tmpdir basepath) = Inr [] \<or> isl (fsp_readFile (files w) (path_join tmpdir basepath))"
    and "publisher basepath = Inr d" and "d \<noteq> []"
    and "getData basepath tmpdir publisher w = (Inr r, w1)"
  shows "r = None \<and> fsp_readFile (files w1) (path_join tmpdir basepath) = Inr d"
proof -
  from getData_success_cases [OF assms(4)] assms(1,2,3) show ?thesis
    by (auto simp: isl_def)
qed

lemma is_file_removed: "q \<noteq> p \<Longrightarrow> is_file (fs(p := None)) q = is_file fs q"
  by (simp add: is_file_iff)

lemma is_dir_removed:
  assumes "q \<noteq> p" and "fs p \<noteq> Some Dir"
  shows "is_dir (fs(p := None)) q = is_dir fs q"
  using assms by (auto simp: is_dir_def node_at_def split: option.splits node.splits)

lemma list_ex_is_file_removed:
  assumes "p \<notin> set qs"
  shows "list_ex (is_file (fs(p := None))) qs = list_ex (is_file fs) qs"
  using assms by (induction qs) (auto simp: is_file_removed)

lemma mkdir_recursive_removed:
  assumes "\<not> prefix p (path_base d)"
  shows "fsp_mkdir_recursive (fs(p := None)) d =
           (case fsp_mkdir_recursive fs d of Inl e \<Rightarrow> Inl e | Inr m \<Rightarrow> Inr (m(p := None)))"
proof -
  from assms have ne: "path_base d \<noteq> p" by auto
  from assms have notin: "p \<notin> set (prefixes (path_base d))" by simp
  have "foldl (\<lambda>m q. m(q \<mapsto> Dir)) (fs(p := None)) (prefixes (path_base d))
          = (foldl (\<lambda>m q. m(q \<mapsto> Dir)) fs (prefixes (path_base d)))(p := None)"
    using assms by (intro ext) (simp add: foldl_mkdir_lookup)
  then show ?thesis
    by (simp add: fsp_mkdir_recursive_def is_file_removed [OF ne] list_ex_is_file_removed [OF notin])
qed

lemma writeFile_over_removed:
  assumes "p \<noteq> []" and "\<not> trailing_slash p" and "m p \<noteq> Some Dir"
  shows "fsp_writeFile (m(p := None)) p d = fsp_writeFile m p d"
proof -
  from assms(1,2) have ne: "path_dirname p \<noteq> p"
    by (cases p rule: rev_cases) (simp_all add: path_dirname_def path_base_def)
  have a: "\<not> is_dir (m(p := None)) p" and b: "\<not> is_dir m p"
    using assms by (simp_all add: is_dir_def node_at_plain)
  from a b assms(2) show ?thesis
    by (simp add: fsp_writeFile_def is_file_removed [OF ne]
        is_dir_removed [where fs = m and p = p and q = "path_dirname p", OF ne assms(3)])
qed

lemma getData_result_entry_removed:
  assumes "fsp_readFile (files w) (path_join tmpdir basepath) = Inr []"
  shows "fst (getData basepath tmpdir publisher w) =
         fst (getData basepath tmpdir publisher (w\<lparr>files := (files w)(path_join tmpdir basepath := None)\<rparr>))"
proof -
  let ?p = "path_join tmpdir basepath"
  let ?w' = "w\<lparr>files := (files w)(?p := None)\<rparr>"
  from assms have node: "node_at (files w) ?p = Some (File [])"
    by (simp add: readFile_Inr)
  from node_at_File [OF node] have ne: "?p \<noteq> []" and nt: "\<not> trailing_slash ?p"
    and fp: "files w ?p = Some (File [])" by simp_all
  have m1: "\<not> truthy (case fsp_readFile (files w) ?p of Inl err \<Rightarrow> None | Inr c \<Rightarrow> Some c)"
    using assms by (simp add: truthy_def)
  have "node_at (files ?w') ?p = None" using ne nt by (simp add: node_at_plain)
  then have "isl (fsp_readFile (files ?w') ?p)" by (simp add: fsp_readFile_def)
  then have m2: "\<not> truthy (case fsp_readFile (files ?w') ?p of Inl err \<Rightarrow> None | Inr c \<Rightarrow> Some c)"
    by (auto simp: truthy_def isl_def)
  have np: "\<not> prefix ?p (path_base (path_dirname ?p))"
    using ne nt by (rule not_prefix_dirname)
  have mk: "fsp_mkdir_recursive (files ?w') (path_dirname ?p) =
       (case fsp_mkdir_recursive (files w) (path_dirname ?p) of Inl e \<Rightarrow> Inl e | Inr m \<Rightarrow> Inr (m(?p := None)))"
    using mkdir_recursive_removed [OF np] by simp
  have wr: "fsp_writeFile (m(?p := None)) ?p d = fsp_writeFile m ?p d"
    if "fsp_mkdir_recursive (files w) (path_dirname ?p) = Inr m" for m d
  proof -
    from that np have "m ?p = files w ?p" by (simp add: mkdir_recursive_lookup)
    with fp have "m ?p \<noteq> Some Dir" by simp
    with ne nt show ?thesis by (rule writeFile_over_removed)
  qed
  show ?thesis
    unfolding getData_miss_unfold [OF m1] getData_miss_unfold [OF m2] mk
    by (auto split: sum.splits simp: wr)
qed

lemma getData_empty_file_persists:
  assumes empty: "fsp_readFile (files w) (path_join tmpdir basepath) = Inr []"
    and pub: "publisher basepath = Inr d" and d: "d \<noteq> []"
    and tree: "\<not> list_ex (is_file (files w)) (prefixes (path_dirname (path_join tmpdir basepath)))"
  shows "fst (getData basepath tmpdir publisher w) = Inr None
       \<and> fsp_readFile (files (snd (getData basepath tmpdir publisher w)))
             (path_join tmpdir basepath) = Inr d"
proof -
  let ?p = "path_join tmpdir basepath"
  let ?fs2 = "foldl (\<lambda>m q. m(q \<mapsto> Dir)) (files w) (prefixes (path_dirname ?p))"
  from empty have node: "node_at (files w) ?p = Some (File [])"
    by (simp add: readFile_Inr)
  have m1: "\<not> truthy (case fsp_readFile (files w) ?p of Inl err \<Rightarrow> None | Inr c \<Rightarrow> Some c)"
    using empty by (simp add: truthy_def)
  have mk: "fsp_mkdir_recursive (files w) (path_dirname ?p) = Inr ?fs2"
    using mkdir_recursive_succeeds [of "files w" "path_dirname ?p"] tree
    by (simp add: path_base_dirname_join)
  have wr: "fsp_writeFile ?fs2 ?p d = Inr (?fs2(?p \<mapsto> File d))"
    using mk node by (rule writeFile_after_mkdir)
  have "getData basepath tmpdir publisher w =
          (Inr None, \<lparr>files = ?fs2(?p \<mapsto> File d), pub_calls = pub_calls w @ [basepath]\<rparr>)"
    unfolding getData_miss_unfold [OF m1] using pub d mk wr by simp
  moreover have "fsp_readFile (?fs2(?p \<mapsto> File d)) ?p = Inr d"
    using wr by (rule writeFile_then_read)
  ultimately show ?thesis by simp
qed

subsection \<open>Claims about getData\<close>

text \<open>
  C1.  The claim: on a cache miss with a source whose \<^verbatim>\<open>readFile\<close> succeeds, the call
  returns the fetched bytes and the cache file then holds them.  Evaluated on the example
  of the specification (an empty cache directory, a source that returns \<^verbatim>\<open>hello\<close> for
  \<^verbatim>\<open>a/b.txt\<close>): the file is written with \<^verbatim>\<open>hello\<close>, but the call returns
  \<^verbatim>\<open>undefined\<close>, because \<^verbatim>\<open>data\<close> is assigned the value of
  \<^verbatim>\<open>fsp.writeFile\<close>.
\<close>

theorem getData_fetch_returns_undefined:
  "fst (getData ''a/b.txt'' ''/tmp/cache'' (\<lambda>b. if b = ''a/b.txt'' then Inr ''hello'' else Inl ''Not Found'')
         \<lparr>files = [[''tmp''] \<mapsto> Dir, [''tmp'', ''cache''] \<mapsto> Dir], pub_calls = []\<rparr>) = Inr None
   \<and> fsp_readFile (files (snd (getData ''a/b.txt'' ''/tmp/cache''
          (\<lambda>b. if b = ''a/b.txt'' then Inr ''hello'' else Inl ''Not Found'')
          \<lparr>files = [[''tmp''] \<mapsto> Dir, [''tmp'', ''cache''] \<mapsto> Dir], pub_calls = []\<rparr>)))
        (path_join ''/tmp/cache'' ''a/b.txt'') = Inr ''hello''"
  by (simp add: getData_def path_join_def path_dirname_def truthy_def fsp_readFile_def
      fsp_mkdir_recursive_def fsp_writeFile_def is_file_def is_dir_def node_at_def
      path_normalize_def trailing_slash_def path_base_def Let_def)

text \<open>
  C2.  When the cache directory has no entry for the identifier and the source's
  \<^verbatim>\<open>readFile\<close> rejects with a message, the call fails with an error carrying that
  message, the file system is left as it was, and the cache still has no entry for the
  identifier.
\<close>

theorem getData_fetch_failure_no_write:
  assumes "node_at (files w) (path_join tmpdir basepath) = None"
    and "publisher basepath = Inl msg"
  shows "fst (getData basepath tmpdir publisher w) = Inl (Error msg)
       \<and> files (snd (getData basepath tmpdir publisher w)) = files w
       \<and> node_at (files (snd (getData basepath tmpdir publisher w))) (path_join tmpdir basepath) = None"
proof -
  have "\<not> truthy (case fsp_readFile (files w) (path_join tmpdir basepath) of Inl err \<Rightarrow> None | Inr c \<Rightarrow> Some c)"
    using assms(1) by (simp add: fsp_readFile_def truthy_def)
  then have "getData basepath tmpdir publisher w = (Inl (Error msg), w\<lparr>pub_calls := pub_calls w @ [basepath]\<rparr>)"
    using assms(2) by (rule getData_miss_reject)
  with assms(1) show ?thesis by simp
qed

theorem getData_fetch_failure_no_write_witness:
  "node_at (files \<lparr>files = [[''tmp''] \<mapsto> Dir], pub_calls = []\<rparr>) (path_join ''/tmp'' ''a/b.txt'') = None
   \<and> fst (getData ''a/b.txt'' ''/tmp'' (\<lambda>b. Inl ''Not Found'') \<lparr>files = [[''tmp''] \<mapsto> Dir], pub_calls = []\<rparr>)
       = Inl (Error ''Not Found'')
   \<and> node_at (files (snd (getData ''a/b.txt'' ''/tmp'' (\<lambda>b. Inl ''Not Found'') \<lparr>files = [[''tmp''] \<mapsto> Dir], pub_calls = []\<rparr>)))
        (path_join ''/tmp'' ''a/b.txt'') = None"
  using getData_fetch_failure_no_write
    [of "\<lparr>files = [[''tmp''] \<mapsto> Dir], pub_calls = []\<rparr>" "''/tmp''" "''a/b.txt''"
        "\<lambda>b. Inl ''Not Found''" "''Not Found''"]
  by (simp add: path_join_def path_normalize_def node_at_def trailing_slash_def path_base_def)

text \<open>
  C3, as stated: after one successful call, a second call with the same arguments returns
  the bytes now stored in the cache and does not call the source.  It fails when the source
  resolves with empty content: the guard \<^verbatim>\<open>if (pubData)\<close> skips the write, the first
  call succeeds with \<^verbatim>\<open>undefined\<close>, and the second call asks the source again.
\<close>

theorem getData_empty_content_fetched_again:
  "fst (getData ''a/b.txt'' ''/tmp/cache'' (\<lambda>b. Inr [])
         \<lparr>files = [[''tmp''] \<mapsto> Dir, [''tmp'', ''cache''] \<mapsto> Dir], pub_calls = []\<rparr>) = Inr None
   \<and> fst (getData ''a/b.txt'' ''/tmp/cache'' (\<lambda>b. Inr [])
         (snd (getData ''a/b.txt'' ''/tmp/cache'' (\<lambda>b. Inr [])
            \<lparr>files = [[''tmp''] \<mapsto> Dir, [''tmp'', ''cache''] \<mapsto> Dir], pub_calls = []\<rparr>))) = Inr None
   \<and> pub_calls (snd (getData ''a/b.txt'' ''/tmp/cache'' (\<lambda>b. Inr [])
         (snd (getData ''a/b.txt'' ''/tmp/cache'' (\<lambda>b. Inr [])
            \<lparr>files = [[''tmp''] \<mapsto> Dir, [''tmp'', ''cache''] \<mapsto> Dir], pub_calls = []\<rparr>))))
       = [''a/b.txt'', ''a/b.txt'']"
  by (simp add: getData_def path_join_def truthy_def fsp_readFile_def node_at_def is_file_def
      path_normalize_def trailing_slash_def path_base_def Let_def)

text \<open>
  C3, amended: after a successful call that was served from the cache, or for which the
  source did not resolve with empty content, the cache file holds non-empty bytes and a
  second call with the same arguments returns exactly those bytes and leaves the world
  unchanged, so the source is called zero times.
\<close>

theorem getData_second_call_served_from_cache:
  assumes "getData basepath tmpdir publisher w = (Inr r, w1)"
    and "r \<noteq> None \<or> publisher basepath \<noteq> Inr []"
  shows "\<exists>c. c \<noteq> [] \<and> fsp_readFile (files w1) (path_join tmpdir basepath) = Inr c
           \<and> getData basepath tmpdir publisher w1 = (Inr (Some c), w1)"
proof -
  from getData_success_cases [OF assms(1)] assms(2)
  obtain c where c: "fsp_readFile (files w1) (path_join tmpdir basepath) = Inr c" "c \<noteq> []"
    by auto
  from getData_hit [OF c] c show ?thesis by blast
qed

theorem getData_second_call_served_from_cache_witness:
  "fst (getData ''a/b.txt'' ''/tmp/cache'' (\<lambda>b. Inr ''hello'')
         \<lparr>files = [[''tmp''] \<mapsto> Dir, [''tmp'', ''cache''] \<mapsto> Dir], pub_calls = []\<rparr>) = Inr None
   \<and> getData ''a/b.txt'' ''/tmp/cache'' (\<lambda>b. Inr ''hello'')
         (snd (getData ''a/b.txt'' ''/tmp/cache'' (\<lambda>b. Inr ''hello'')
            \<lparr>files = [[''tmp''] \<mapsto> Dir, [''tmp'', ''cache''] \<mapsto> Dir], pub_calls = []\<rparr>))
       = (Inr (Some ''hello''),
          snd (getData ''a/b.txt'' ''/tmp/cache'' (\<lambda>b. Inr ''hello'')
            \<lparr>files = [[''tmp''] \<mapsto> Dir, [''tmp'', ''cache''] \<mapsto> Dir], pub_calls = []\<rparr>))"
proof -
  let ?w0 = "\<lparr>files = [[''tmp''] \<mapsto> Dir, [''tmp'', ''cache''] \<mapsto> Dir], pub_calls = []\<rparr>"
  let ?P = "\<lambda>b::string. (Inr ''hello'' :: string + string)"
  let ?w1 = "snd (getData ''a/b.txt'' ''/tmp/cache'' ?P ?w0)"
  have first: "fst (getData ''a/b.txt'' ''/tmp/cache'' ?P ?w0) = Inr None"
    by (simp add: getData_def path_join_def path_dirname_def truthy_def fsp_readFile_def
        fsp_mkdir_recursive_def fsp_writeFile_def is_file_def is_dir_def node_at_def
      path_normalize_def trailing_slash_def path_base_def Let_def)
  have stored: "fsp_readFile (files ?w1) (path_join ''/tmp/cache'' ''a/b.txt'') = Inr ''hello''"
    by (simp add: getData_def path_join_def path_dirname_def truthy_def fsp_readFile_def
        fsp_mkdir_recursive_def fsp_writeFile_def is_file_def is_dir_def node_at_def
      path_normalize_def trailing_slash_def path_base_def Let_def)
  have h: "getData ''a/b.txt'' ''/tmp/cache'' ?P ?w0 = (Inr None, ?w1)"
    using first by (simp add: prod_eq_iff)
  have "\<exists>c. c \<noteq> [] \<and> fsp_readFile (files ?w1) (path_join ''/tmp/cache'' ''a/b.txt'') = Inr c
           \<and> getData ''a/b.txt'' ''/tmp/cache'' ?P ?w1 = (Inr (Some c), ?w1)"
    by (rule getData_second_call_served_from_cache [OF h]) simp
  with stored first show ?thesis by auto
qed

text \<open>
  C10.  When the cache file exists and is empty, the successful local read counts as a
  miss and the call takes the path of a fetch: the source is called exactly once and the
  empty content is never the result.  If the source rejects, the call fails with the
  message of the source and writes nothing; if the source resolves with empty content,
  the call returns \<^verbatim>\<open>undefined\<close> and writes nothing; if the source resolves with
  content that is not empty and no directory on the way to the cache file is a regular
  file, the call succeeds and the cache file holds the fetched content afterwards.  In
  every case the result is the one the call gives when the cache has no entry for the
  identifier.
\<close>

theorem getData_empty_cache_file_is_miss:
  assumes "fsp_readFile (files w) (path_join tmpdir basepath) = Inr []"
  shows "pub_calls (snd (getData basepath tmpdir publisher w)) = pub_calls w @ [basepath]
       \<and> fst (getData basepath tmpdir publisher w) \<noteq> Inr (Some [])
       \<and> fst (getData basepath tmpdir publisher w) =
           fst (getData basepath tmpdir publisher
                  (w\<lparr>files := (files w)(path_join tmpdir basepath := None)\<rparr>))
       \<and> (\<forall>msg. publisher basepath = Inl msg \<longrightarrow>
             getData basepath tmpdir publisher w =
               (Inl (Error msg), w\<lparr>pub_calls := pub_calls w @ [basepath]\<rparr>))
       \<and> (publisher basepath = Inr [] \<longrightarrow>
             getData basepath tmpdir publisher w =
               (Inr None, w\<lparr>pub_calls := pub_calls w @ [basepath]\<rparr>))
       \<and> (\<forall>d. publisher basepath = Inr d \<and> d \<noteq> []
              \<and> \<not> list_ex (is_file (files w))
                    (prefixes (path_dirname (path_join tmpdir basepath)))
            \<longrightarrow> fst (getData basepath tmpdir publisher w) = Inr None
              \<and> fsp_readFile (files (snd (getData basepath tmpdir publisher w)))
                    (path_join tmpdir basepath) = Inr d)"
proof -
  have m1: "\<not> truthy (case fsp_readFile (files w) (path_join tmpdir basepath) of Inl err \<Rightarrow> None | Inr c \<Rightarrow> Some c)"
    using assms by (simp add: truthy_def)
  have calls: "pub_calls (snd (getData basepath tmpdir publisher w)) = pub_calls w @ [basepath]"
    unfolding getData_miss_unfold [OF m1] by (simp split: sum.splits)
  have never: "fst (getData basepath tmpdir publisher w) \<noteq> Inr (Some [])"
    unfolding getData_miss_unfold [OF m1] by (simp split: sum.splits)
  have rejected: "getData basepath tmpdir publisher w =
               (Inl (Error msg), w\<lparr>pub_calls := pub_calls w @ [basepath]\<rparr>)"
    if "publisher basepath = Inl msg" for msg
    using m1 that by (rule getData_miss_reject)
  have unwritten: "getData basepath tmpdir publisher w =
               (Inr None, w\<lparr>pub_calls := pub_calls w @ [basepath]\<rparr>)"
    if "publisher basepath = Inr []"
    unfolding getData_miss_unfold [OF m1] using that by simp
  have persists: "fst (getData basepath tmpdir publisher w) = Inr None
              \<and> fsp_readFile (files (snd (getData basepath tmpdir publisher w)))
                    (path_join tmpdir basepath) = Inr d"
    if "publisher basepath = Inr d" "d \<noteq> []"
       "\<not> list_ex (is_file (files w)) (prefixes (path_dirname (path_join tmpdir basepath)))" for d
    using assms that by (rule getData_empty_file_persists)
  note same = getData_result_entry_removed [OF assms, of publisher]
  show ?thesis
  proof (intro conjI allI impI)
    show "pub_calls (snd (getData basepath tmpdir publisher w)) = pub_calls w @ [basepath]"
      by (rule calls)
    show "fst (getData basepath tmpdir publisher w) \<noteq> Inr (Some [])"
      by (rule never)
    show "fst (getData basepath tmpdir publisher w) =
           fst (getData basepath tmpdir publisher
                  (w\<lparr>files := (files w)(path_join tmpdir basepath := None)\<rparr>))"
      by (rule same)
  next
    fix msg
    assume "publisher basepath = Inl msg"
    then show "getData basepath tmpdir publisher w =
               (Inl (Error msg), w\<lparr>pub_calls := pub_calls w @ [basepath]\<rparr>)"
      by (rule rejected)
  next
    assume "publisher basepath = Inr []"
    then show "getData basepath tmpdir publisher w =
               (Inr None, w\<lparr>pub_calls := pub_calls w @ [basepath]\<rparr>)"
      by (rule unwritten)
  next
    fix d
    assume h: "publisher basepath = Inr d \<and> d \<noteq> []
              \<and> \<not> list_ex (is_file (files w))
                    (prefixes (path_dirname (path_join tmpdir basepath)))"
    from persists [of d] h
    show "fst (getData basepath tmpdir publisher w) = Inr None" by blast
    from persists [of d] h
    show "fsp_readFile (files (snd (getData basepath tmpdir publisher w)))
                    (path_join tmpdir basepath) = Inr d" by blast
  qed
qed

theorem getData_empty_cache_file_is_miss_witness:
  "fsp_readFile (files \<lparr>files = [[''tmp''] \<mapsto> Dir, [''tmp'', ''a.txt''] \<mapsto> File []], pub_calls = []\<rparr>)
      (path_join ''/tmp'' ''a.txt'') = Inr []
   \<and> \<not> list_ex (is_file (files \<lparr>files = [[''tmp''] \<mapsto> Dir, [''tmp'', ''a.txt''] \<mapsto> File []], pub_calls = []\<rparr>))
         (prefixes (path_dirname (path_join ''/tmp'' ''a.txt'')))
   \<and> pub_calls (snd (getData ''a.txt'' ''/tmp'' (\<lambda>b. Inr ''hello'')
        \<lparr>files = [[''tmp''] \<mapsto> Dir, [''tmp'', ''a.txt''] \<mapsto> File []], pub_calls = []\<rparr>)) = [''a.txt'']
   \<and> fst (getData ''a.txt'' ''/tmp'' (\<lambda>b. Inr ''hello'')
        \<lparr>files = [[''tmp''] \<mapsto> Dir, [''tmp'', ''a.txt''] \<mapsto> File []], pub_calls = []\<rparr>) = Inr None
   \<and> fsp_readFile (files (snd (getData ''a.txt'' ''/tmp'' (\<lambda>b. Inr ''hello'')
        \<lparr>files = [[''tmp''] \<mapsto> Dir, [''tmp'', ''a.txt''] \<mapsto> File []], pub_calls = []\<rparr>)))
      (path_join ''/tmp'' ''a.txt'') = Inr ''hello''"
proof -
  let ?w = "\<lparr>files = [[''tmp''] \<mapsto> Dir, [''tmp'', ''a.txt''] \<mapsto> File []], pub_calls = []\<rparr>"
  have p: "path_join ''/tmp'' ''a.txt'' = [''tmp'', ''a.txt'']"
    by (simp add: path_join_def path_normalize_def)
  have h: "fsp_readFile (files ?w) (path_join ''/tmp'' ''a.txt'') = Inr []"
    unfolding p by (simp add: fsp_readFile_def node_at_def trailing_slash_def path_base_def)
  have tree: "\<not> list_ex (is_file (files ?w)) (prefixes (path_dirname (path_join ''/tmp'' ''a.txt'')))"
    unfolding p
    by (simp add: path_dirname_def is_file_def node_at_def trailing_slash_def path_base_def)
  note t = getData_empty_cache_file_is_miss [OF h, where publisher = "\<lambda>b. Inr ''hello''"]
  from t [THEN conjunct1] have a: "pub_calls (snd (getData ''a.txt'' ''/tmp'' (\<lambda>b. Inr ''hello'') ?w)) = [''a.txt'']"
    by simp
  from t have "\<forall>d. (\<lambda>b. Inr ''hello'') ''a.txt'' = Inr d \<and> d \<noteq> []
              \<and> \<not> list_ex (is_file (files ?w)) (prefixes (path_dirname (path_join ''/tmp'' ''a.txt'')))
            \<longrightarrow> fst (getData ''a.txt'' ''/tmp'' (\<lambda>b. Inr ''hello'') ?w) = Inr None
              \<and> fsp_readFile (files (snd (getData ''a.txt'' ''/tmp'' (\<lambda>b. Inr ''hello'') ?w)))
                    (path_join ''/tmp'' ''a.txt'') = Inr d"
    by blast
  with tree have b: "fst (getData ''a.txt'' ''/tmp'' (\<lambda>b. Inr ''hello'') ?w) = Inr None
              \<and> fsp_readFile (files (snd (getData ''a.txt'' ''/tmp'' (\<lambda>b. Inr ''hello'') ?w)))
                    (path_join ''/tmp'' ''a.txt'') = Inr ''hello''"
    by simp
  from h tree a b show ?thesis by blast
qed

section \<open>Properties of the document functions\<close>

subsection \<open>Facts about the front-matter pattern\<close>

lemma find_closer_closing_line:
  assumes "find_closer m acc t = Some yr" and "m = ''---'' \<or> m = ''= yaml =''"
  shows "closing_line_after t"
  using assms
proof (induction t arbitrary: acc)
  case Nil
  then show ?case by simp
next
  case (Cons c t)
  show ?case
  proof (cases "is_line_terminator c \<and> closes_block t")
    case True
    then show ?thesis by simp
  next
    case False
    with Cons.prems have "find_closer m (acc @ [c]) t = Some yr"
      by (auto simp: closes_block_def split: if_splits option.splits)
    from Cons.IH [OF this Cons.prems(2)] show ?thesis by simp
  qed
qed

lemma closing_line_after_drop:
  "closing_line_after (drop n u) \<Longrightarrow> closing_line_after u"
proof (induction u arbitrary: n)
  case Nil
  then show ?case by simp
next
  case (Cons c u)
  show ?case
  proof (cases n)
    case 0
    with Cons.prems show ?thesis by simp
  next
    case (Suc k)
    with Cons.prems have "closing_line_after (drop k u)" by simp
    then have "closing_line_after u" by (rule Cons.IH)
    then show ?thesis by simp
  qed
qed

lemma opener_at_marker:
  assumes "opener_at u = Some (m, t)"
  shows "(m = ''---'' \<or> m = ''= yaml ='') \<and> (\<exists>n. t = drop n u)"
  using assms by (auto simp: opener_at_def split: if_splits)

lemma match_here_none:
  assumes "\<not> closing_line_after u"
  shows "match_here u = None"
proof (cases "opener_at u")
  case None
  then show ?thesis by (simp add: match_here_def)
next
  case (Some mt)
  obtain m t where mt: "mt = (m, t)" by (cases mt)
  from Some mt opener_at_marker [of u m t]
  obtain n where m: "m = ''---'' \<or> m = ''= yaml =''" and t: "t = drop n u" by auto
  have "find_closer m [] t = None"
  proof (rule ccontr)
    assume "find_closer m [] t \<noteq> None"
    then obtain yr where "find_closer m [] t = Some yr" by auto
    from find_closer_closing_line [OF this m] have "closing_line_after t" .
    with t have "closing_line_after u" by (auto dest: closing_line_after_drop)
    with assms show False by simp
  qed
  with Some mt show ?thesis by (simp add: match_here_def)
qed

lemma regex_exec_from_none:
  assumes "\<not> closing_line_after u"
  shows "regex_exec_from b u = None"
  using assms
proof (induction u arbitrary: b)
  case Nil
  then show ?case by simp
next
  case (Cons c u)
  from Cons.prems have here: "match_here (c # u) = None" by (rule match_here_none)
  from Cons.prems have "\<not> closing_line_after u" by (simp split: if_splits)
  then have "regex_exec_from (is_line_terminator c) u = None" by (rule Cons.IH)
  with here show ?case by simp
qed

lemma frontmatter_no_closing_line:
  assumes "\<not> closing_line_after text"
  shows "frontmatter load text = Inr \<lparr>attributes = Obj [], fm_body = text\<rparr>"
  using regex_exec_from_none [OF assms, of True]
  by (simp add: frontmatter_def parse_def regex_exec_def Let_def)

subsection \<open>The steps of renderDocument\<close>

lemma renderDocument_parsed:
  assumes "fs_readFileSync fs file = Inr text"
    and "frontmatter (yaml_load L) text = Inr doc"
  shows "renderDocument L fs file context =
     (case render L (Some (Str (fm_body doc))) (context(''page'' \<mapsto> attributes doc)) of
        Inl e \<Rightarrow> (Inl e, context(''page'' \<mapsto> attributes doc))
      | Inr b \<Rightarrow>
          (case render L (property (attributes doc) ''title'') (context(''page'' \<mapsto> attributes doc)) of
             Inl e \<Rightarrow> (Inl e, context(''page'' \<mapsto> attributes doc))
           | Inr t \<Rightarrow> (Inr \<lparr>body = b, page = attributes doc, title = t\<rparr>,
                        context(''page'' \<mapsto> attributes doc))))"
  using assms by (simp add: renderDocument_def Let_def)

lemma render_undefined:
  "render L None context = Inl (Error ''src must be a string or an object describing the source'')"
  by (simp add: render_def renderString_def)


subsection \<open>The example document of the specification\<close>

lemma example_first_line:
  "takeWhile (\<lambda>c. c \<noteq> CHR 0x0A) ''---\<newline>title: Hi\<newline>---\<newline>Body {{ page.title }}'' = ''---''"
  by simp

lemma example_regex_exec:
  "regex_exec ''---\<newline>title: Hi\<newline>---\<newline>Body {{ page.title }}''
     = Some (''---\<newline>title: Hi\<newline>---\<newline>'', ''\<newline>title: Hi\<newline>'')"
  by code_simp

lemma example_trim: "trim ''\<newline>title: Hi\<newline>'' = ''title: Hi''"
  by code_simp

lemma example_remove_first:
  "remove_first ''---\<newline>title: Hi\<newline>---\<newline>''
     ''---\<newline>title: Hi\<newline>---\<newline>Body {{ page.title }}'' = ''Body {{ page.title }}''"
  by simp

lemma example_frontmatter:
  assumes "load ''title: Hi'' = Inr (Obj [(''title'', Str ''Hi'')])"
  shows "frontmatter load ''---\<newline>title: Hi\<newline>---\<newline>Body {{ page.title }}''
           = Inr \<lparr>attributes = Obj [(''title'', Str ''Hi'')], fm_body = ''Body {{ page.title }}''\<rparr>"
  unfolding frontmatter_def parse_def example_regex_exec Let_def example_first_line
  using assms by (simp add: example_trim example_remove_first falsy_def)

subsection \<open>Claims about parsing and rendering\<close>

text \<open>
  C4, as stated: a text that begins with the opening marker line and has no closing marker
  line makes parsing fail.  The front-matter package does not fail there: when its pattern
  finds no block, it returns empty attributes and the whole text as the body.
\<close>

theorem unclosed_frontmatter_is_not_an_error:
  "frontmatter demo_yaml_load ''---\<newline>title: Hi\<newline>Body''
     = Inr \<lparr>attributes = Obj [], fm_body = ''---\<newline>title: Hi\<newline>Body''\<rparr>"
  by code_simp

text \<open>
  C4, amended: for every text that begins with the opening marker line and in which no
  later line closes a block, parsing succeeds with empty attributes and the whole text as
  the body, so no partial front matter is returned.  \<^verbatim>\<open>renderDocument\<close> on a file
  with such a text returns no document: it sets \<^verbatim>\<open>context.page\<close> to the empty
  mapping, renders the whole text as the body, and then fails on the title, which is
  undefined (or it fails before, with the error of the body).
\<close>

theorem frontmatter_unclosed_block:
  assumes "opener_at text \<noteq> None" and "\<not> closing_line_after text"
  shows "frontmatter load text = Inr \<lparr>attributes = Obj [], fm_body = text\<rparr>
       \<and> (fs_readFileSync fs file = Inr text \<longrightarrow>
            renderDocument L fs file context =
              (case render L (Some (Str text)) (context(''page'' \<mapsto> Obj [])) of
                 Inl e \<Rightarrow> (Inl e, context(''page'' \<mapsto> Obj []))
               | Inr b \<Rightarrow>
                   (Inl (Error ''src must be a string or an object describing the source''),
                    context(''page'' \<mapsto> Obj []))))"
proof (intro conjI impI)
  show "frontmatter load text = Inr \<lparr>attributes = Obj [], fm_body = text\<rparr>"
    using assms(2) by (rule frontmatter_no_closing_line)
next
  assume read: "fs_readFileSync fs file = Inr text"
  have parsed: "frontmatter (yaml_load L) text = Inr \<lparr>attributes = Obj [], fm_body = text\<rparr>"
    using assms(2) by (rule frontmatter_no_closing_line)
  show "renderDocument L fs file context =
              (case render L (Some (Str text)) (context(''page'' \<mapsto> Obj [])) of
                 Inl e \<Rightarrow> (Inl e, context(''page'' \<mapsto> Obj []))
               | Inr b \<Rightarrow>
                   (Inl (Error ''src must be a string or an object describing the source''),
                    context(''page'' \<mapsto> Obj [])))"
    unfolding renderDocument_parsed [OF read parsed]
    by (simp add: render_undefined split: sum.splits)
qed

theorem frontmatter_unclosed_block_witness:
  "opener_at ''---\<newline>title: Hi'' \<noteq> None
   \<and> \<not> closing_line_after ''---\<newline>title: Hi''
   \<and> frontmatter demo_yaml_load ''---\<newline>title: Hi''
        = Inr \<lparr>attributes = Obj [], fm_body = ''---\<newline>title: Hi''\<rparr>
   \<and> fst (renderDocument demo_libs [[''site'', ''post.md''] \<mapsto> File ''---\<newline>title: Hi'']
          ''/site/post.md'' Map.empty)
        = Inl (Error ''src must be a string or an object describing the source'')"
proof -
  have o: "opener_at ''---\<newline>title: Hi'' \<noteq> None"
    by (simp add: opener_at_def at_line_end_def is_line_terminator_def)
  have c: "\<not> closing_line_after ''---\<newline>title: Hi''"
    by (simp add: is_line_terminator_def closes_block_def closer_at_def)
  have r: "fs_readFileSync [[''site'', ''post.md''] \<mapsto> File ''---\<newline>title: Hi''] ''/site/post.md''
             = Inr ''---\<newline>title: Hi''"
    by (simp add: fs_readFileSync_def fsp_readFile_def path_normalize_def node_at_def
        trailing_slash_def path_base_def)
  have b: "render demo_libs (Some (Str ''---\<newline>title: Hi'')) ctx = Inr ''---\<newline>title: Hi''" for ctx
    by (simp add: render_def renderString_def demo_libs_def demo_nj_render_def)
  note t = frontmatter_unclosed_block [OF o c, of demo_yaml_load
      "[[''site'', ''post.md''] \<mapsto> File ''---\<newline>title: Hi'']" "''/site/post.md''" demo_libs Map.empty]
  from t r b o c show ?thesis by simp
qed



text \<open>
  C6, as stated: for a document whose front matter has no title key,
  \<^verbatim>\<open>renderDocument\<close> succeeds with an undefined title.  The source renders
  \<^verbatim>\<open>document.attributes.title\<close> without a test, and Nunjucks rejects a template
  source that is undefined: a file with the text \<^verbatim>\<open>Hello\<close> makes the call throw.
\<close>

theorem renderDocument_missing_title_raises:
  "fst (renderDocument demo_libs [[''site'', ''post.md''] \<mapsto> File ''Hello''] ''/site/post.md'' Map.empty)
     = Inl (Error ''src must be a string or an object describing the source'')"
  by code_simp

text \<open>
  C6, amended: for every document whose front matter has no title key,
  \<^verbatim>\<open>renderDocument\<close> returns no document.  It sets \<^verbatim>\<open>context.page\<close>, renders
  the body, and then throws the error of Nunjucks for an undefined template source,
  unless rendering the body has thrown before.
\<close>

theorem renderDocument_without_title:
  assumes "fs_readFileSync fs file = Inr text"
    and "frontmatter (yaml_load L) text = Inr doc"
    and "property (attributes doc) ''title'' = None"
  shows "isl (fst (renderDocument L fs file context))
       \<and> renderDocument L fs file context =
           (case render L (Some (Str (fm_body doc))) (context(''page'' \<mapsto> attributes doc)) of
              Inl e \<Rightarrow> (Inl e, context(''page'' \<mapsto> attributes doc))
            | Inr b \<Rightarrow>
                (Inl (Error ''src must be a string or an object describing the source''),
                 context(''page'' \<mapsto> attributes doc)))"
  unfolding renderDocument_parsed [OF assms(1,2)] assms(3)
  by (simp add: render_undefined split: sum.splits)

theorem renderDocument_without_title_witness:
  "fs_readFileSync [[''site'', ''post.md''] \<mapsto> File ''---\<newline>layout: post\<newline>---\<newline>Hello'']
       ''/site/post.md'' = Inr ''---\<newline>layout: post\<newline>---\<newline>Hello''
   \<and> frontmatter (yaml_load demo_libs) ''---\<newline>layout: post\<newline>---\<newline>Hello''
       = Inr \<lparr>attributes = Obj [(''layout'', Str ''post'')], fm_body = ''Hello''\<rparr>
   \<and> isl (fst (renderDocument demo_libs
         [[''site'', ''post.md''] \<mapsto> File ''---\<newline>layout: post\<newline>---\<newline>Hello'']
         ''/site/post.md'' Map.empty))"
proof -
  let ?fs = "[[''site'', ''post.md''] \<mapsto> File ''---\<newline>layout: post\<newline>---\<newline>Hello'']"
  have r: "fs_readFileSync ?fs ''/site/post.md'' = Inr ''---\<newline>layout: post\<newline>---\<newline>Hello''"
    by (simp add: fs_readFileSync_def fsp_readFile_def path_normalize_def node_at_def
        trailing_slash_def path_base_def)
  have p: "frontmatter (yaml_load demo_libs) ''---\<newline>layout: post\<newline>---\<newline>Hello''
       = Inr \<lparr>attributes = Obj [(''layout'', Str ''post'')], fm_body = ''Hello''\<rparr>"
    by code_simp
  have n: "property (attributes \<lparr>attributes = Obj [(''layout'', Str ''post'')], fm_body = ''Hello''\<rparr>) ''title'' = None"
    by simp
  from renderDocument_without_title [OF r p n, of Map.empty] r p show ?thesis by blast
qed

text \<open>
  C7, as stated: for a value that is neither \<^verbatim>\<open>now\<close> nor a valid ISO 8601
  timestamp the date filter fails.  The source does not test the value, and Luxon gives an
  invalid date-time for it, whose format is a fixed string: the filter returns
  \<^verbatim>\<open>Invalid DateTime\<close>.
\<close>

theorem formatDate_unparsable_returns_marker:
  "formatDate demo_libs (Str ''blorp'') ''dd/MM/yyyy'' (Some ''en-GB'') = Inr ''Invalid DateTime''"
  by (simp add: formatDate_def DateTime_fromISO_def toFormat_def demo_libs_def demo_fromISO_def)

text \<open>
  C7, amended: for every value that is not \<^verbatim>\<open>now\<close> and that
  \<^verbatim>\<open>DateTime.fromISO\<close> does not accept, \<^verbatim>\<open>formatDate\<close> does not fail: it
  returns the string \<^verbatim>\<open>Invalid DateTime\<close>, whatever the format and the locale.
\<close>

theorem formatDate_invalid:
  assumes "str \<noteq> Str ''now''"
    and "DateTime_fromISO L (JSVal str) (case locale of None \<Rightarrow> ''en-GB'' | Some l \<Rightarrow> l) = None"
  shows "formatDate L str format locale = Inr ''Invalid DateTime''"
  using assms by (simp add: formatDate_def toFormat_def Let_def)

theorem formatDate_invalid_witness:
  "Str ''yesterday'' \<noteq> Str ''now''
   \<and> DateTime_fromISO demo_libs (JSVal (Str ''yesterday'')) ''en-GB'' = None
   \<and> formatDate demo_libs (Str ''yesterday'') ''yyyy'' None = Inr ''Invalid DateTime''"
proof -
  have a: "Str ''yesterday'' \<noteq> Str ''now''" by simp
  have b: "DateTime_fromISO demo_libs (JSVal (Str ''yesterday''))
             (case None of None \<Rightarrow> ''en-GB'' | Some l \<Rightarrow> l) = None"
    by (simp add: DateTime_fromISO_def demo_libs_def demo_fromISO_def)
  from formatDate_invalid [OF a b, of "''yyyy''"] a b show ?thesis by simp
qed

text \<open>
  C9.  For every context, once the file is read and parsed, \<^verbatim>\<open>renderDocument\<close>
  leaves the caller's context with \<^verbatim>\<open>page\<close> set to the parsed front matter and
  every other key as it was, also when rendering fails afterwards; the body and the title
  are rendered against that updated context.
\<close>

theorem renderDocument_sets_page:
  assumes "fs_readFileSync fs file = Inr text"
    and "frontmatter (yaml_load L) text = Inr doc"
  shows "snd (renderDocument L fs file context) = context(''page'' \<mapsto> attributes doc)
       \<and> (\<forall>k. k \<noteq> ''page'' \<longrightarrow> snd (renderDocument L fs file context) k = context k)
       \<and> fst (renderDocument L fs file context) =
           (case render L (Some (Str (fm_body doc))) (snd (renderDocument L fs file context)) of
              Inl e \<Rightarrow> Inl e
            | Inr b \<Rightarrow>
                (case render L (property (attributes doc) ''title'')
                        (snd (renderDocument L fs file context)) of
                   Inl e \<Rightarrow> Inl e
                 | Inr t \<Rightarrow> Inr \<lparr>body = b, page = attributes doc, title = t\<rparr>))"
proof -
  have s: "snd (renderDocument L fs file context) = context(''page'' \<mapsto> attributes doc)"
    unfolding renderDocument_parsed [OF assms] by (simp split: sum.splits)
  have f: "fst (renderDocument L fs file context) =
           (case render L (Some (Str (fm_body doc))) (context(''page'' \<mapsto> attributes doc)) of
              Inl e \<Rightarrow> Inl e
            | Inr b \<Rightarrow>
                (case render L (property (attributes doc) ''title'')
                        (context(''page'' \<mapsto> attributes doc)) of
                   Inl e \<Rightarrow> Inl e
                 | Inr t \<Rightarrow> Inr \<lparr>body = b, page = attributes doc, title = t\<rparr>))"
    unfolding renderDocument_parsed [OF assms] by (simp split: sum.splits)
  from f show ?thesis unfolding s by simp
qed

theorem renderDocument_sets_page_witness:
  "snd (renderDocument demo_libs
         [[''site'', ''post.md''] \<mapsto> File ''---\<newline>title: Hi\<newline>---\<newline>Body {{ page.title }}'']
         ''/site/post.md'' [''site'' \<mapsto> Str ''indiekit''])
     = [''site'' \<mapsto> Str ''indiekit'', ''page'' \<mapsto> Obj [(''title'', Str ''Hi'')]]
   \<and> snd (renderDocument demo_libs
         [[''site'', ''post.md''] \<mapsto> File ''---\<newline>title: Hi\<newline>---\<newline>Body {{ page.title }}'']
         ''/site/post.md'' [''site'' \<mapsto> Str ''indiekit'']) ''site'' = Some (Str ''indiekit'')"
proof -
  let ?fs = "[[''site'', ''post.md''] \<mapsto> File ''---\<newline>title: Hi\<newline>---\<newline>Body {{ page.title }}'']"
  have r: "fs_readFileSync ?fs ''/site/post.md''
             = Inr ''---\<newline>title: Hi\<newline>---\<newline>Body {{ page.title }}''"
    by (simp add: fs_readFileSync_def fsp_readFile_def path_normalize_def node_at_def
        trailing_slash_def path_base_def)
  have y: "yaml_load demo_libs ''title: Hi'' = Inr (Obj [(''title'', Str ''Hi'')])"
    by (simp add: demo_libs_def demo_yaml_load_def trim_def is_space_char_def)
  have p: "frontmatter (yaml_load demo_libs) ''---\<newline>title: Hi\<newline>---\<newline>Body {{ page.title }}''
          = Inr \<lparr>attributes = Obj [(''title'', Str ''Hi'')], fm_body = ''Body {{ page.title }}''\<rparr>"
    using y by (rule example_frontmatter)
  from renderDocument_sets_page [OF r p, of "[''site'' \<mapsto> Str ''indiekit'']", THEN conjunct1]
  show ?thesis by simp
qed

end
